theory Spec2Isabelle
  imports Main "HOL-Library.Word" "HOL-Library.Sublist"
begin

section \<open>JavaScript values\<close>

text \<open>
  A JavaScript string is a sequence of UTF-16 code units. String literals of the source
  are ASCII and are written through \<open>str\<close>.
\<close>

type_synonym code_unit = "16 word"
type_synonym jsstr = "code_unit list"

definition str :: "string \<Rightarrow> jsstr" where
  "str s = map (\<lambda>c. of_nat (of_char c)) s"

text \<open>
  The numbers of index.js all descend from \<open>parseInt\<close>: they are \<open>NaN\<close> or integers.
  Integers are kept exact; a double agrees with them up to \<open>2 ^ 53\<close>.
\<close>

datatype jsnum = NaN | Num int

fun js_sub :: "jsnum \<Rightarrow> jsnum \<Rightarrow> jsnum" where
  "js_sub (Num a) (Num b) = Num (a - b)"
| "js_sub _ _ = NaN"

fun js_mul :: "jsnum \<Rightarrow> jsnum \<Rightarrow> jsnum" where
  "js_mul (Num a) (Num b) = Num (a * b)"
| "js_mul _ _ = NaN"

text \<open>The values a \<open>link\<close> or \<open>snippet\<close> field can hold.\<close>

datatype jsval = JUndefined | JNull | JStr jsstr

section \<open>String built-ins\<close>

text \<open>
  The code units \<open>String.prototype.trim\<close> and \<open>parseInt\<close> strip: the white space and
  line terminators of ECMAScript (TAB, LF, VT, FF, CR, SP, NBSP, the space separators of
  Unicode, LS, PS and the byte order mark).
\<close>

definition isWhiteSpace :: "code_unit \<Rightarrow> bool" where
  "isWhiteSpace c =
     (let n = unat c in
        n = 0x9 \<or> n = 0xA \<or> n = 0xB \<or> n = 0xC \<or> n = 0xD \<or> n = 0x20 \<or> n = 0xA0
        \<or> n = 0x1680 \<or> (0x2000 \<le> n \<and> n \<le> 0x200A) \<or> n = 0x2028 \<or> n = 0x2029
        \<or> n = 0x202F \<or> n = 0x205F \<or> n = 0x3000 \<or> n = 0xFEFF)"

definition trim :: "jsstr \<Rightarrow> jsstr" where
  "trim s = rev (dropWhile isWhiteSpace (rev (dropWhile isWhiteSpace s)))"

text \<open>The value of a digit or letter as a digit of a radix up to 36.\<close>

definition digitValue :: "code_unit \<Rightarrow> nat option" where
  "digitValue c =
     (let n = unat c in
        if 0x30 \<le> n \<and> n \<le> 0x39 then Some (n - 0x30)
        else if 0x61 \<le> n \<and> n \<le> 0x7A then Some (n - 0x61 + 10)
        else if 0x41 \<le> n \<and> n \<le> 0x5A then Some (n - 0x41 + 10)
        else None)"

definition isRadixDigit :: "nat \<Rightarrow> code_unit \<Rightarrow> bool" where
  "isRadixDigit R c = (case digitValue c of None \<Rightarrow> False | Some d \<Rightarrow> d < R)"

definition digitOf :: "code_unit \<Rightarrow> nat" where
  "digitOf c = (case digitValue c of None \<Rightarrow> 0 | Some d \<Rightarrow> d)"

text \<open>
  \<open>parseInt(string)\<close> with no radix: leading white space is skipped, a sign is read, a
  prefix \<open>0x\<close> or \<open>0X\<close> selects radix 16 (radix 10 otherwise), and the longest run of
  digits is the value; no digit at all gives \<open>NaN\<close>.
\<close>

definition parseInt :: "jsstr \<Rightarrow> jsnum" where
  "parseInt inputString =
     (let S = dropWhile isWhiteSpace inputString;
          sign = (case S of c # _ \<Rightarrow> if c = 0x2D then - 1 else 1 | [] \<Rightarrow> (1::int));
          S1 = (case S of c # cs \<Rightarrow> if c = 0x2B \<or> c = 0x2D then cs else S | [] \<Rightarrow> S);
          hex = (case S1 of a # b # _ \<Rightarrow> a = 0x30 \<and> (b = 0x78 \<or> b = 0x58) | _ \<Rightarrow> False);
          R = (if hex then 16 else 10);
          S2 = (if hex then drop 2 S1 else S1);
          Z = takeWhile (isRadixDigit R) S2
      in if Z = [] then NaN
         else Num (sign * int (foldl (\<lambda>a c. a * R + digitOf c) 0 Z)))"

text \<open>The errors the request handler catches.\<close>

datatype js_error =
    TypeError
  | URIError
  | ScrapeError jsstr

text \<open>
  \<open>encodeURIComponent\<close>: letters, digits and \<open>- _ . ! ~ * ' ( )\<close> are kept; every
  other code point is written as the percent-escaped octets of its UTF-8 encoding; a
  surrogate without its partner throws a \<open>URIError\<close>.
\<close>

definition uriUnreserved :: "code_unit \<Rightarrow> bool" where
  "uriUnreserved c =
     (let n = unat c in
        (0x30 \<le> n \<and> n \<le> 0x39) \<or> (0x41 \<le> n \<and> n \<le> 0x5A) \<or> (0x61 \<le> n \<and> n \<le> 0x7A)
        \<or> n = 0x2D \<or> n = 0x5F \<or> n = 0x2E \<or> n = 0x21 \<or> n = 0x7E \<or> n = 0x2A
        \<or> n = 0x27 \<or> n = 0x28 \<or> n = 0x29)"

definition isLeadSurrogate :: "code_unit \<Rightarrow> bool" where
  "isLeadSurrogate c = (0xD800 \<le> unat c \<and> unat c \<le> 0xDBFF)"

definition isTrailSurrogate :: "code_unit \<Rightarrow> bool" where
  "isTrailSurrogate c = (0xDC00 \<le> unat c \<and> unat c \<le> 0xDFFF)"

definition utf8Octets :: "nat \<Rightarrow> nat list" where
  "utf8Octets cp =
     (if cp < 0x80 then [cp]
      else if cp < 0x800 then [0xC0 + cp div 64, 0x80 + cp mod 64]
      else if cp < 0x10000 then [0xE0 + cp div 4096, 0x80 + cp div 64 mod 64, 0x80 + cp mod 64]
      else [0xF0 + cp div 262144, 0x80 + cp div 4096 mod 64, 0x80 + cp div 64 mod 64,
            0x80 + cp mod 64])"

definition hexDigit :: "nat \<Rightarrow> code_unit" where
  "hexDigit n = (if n < 10 then of_nat (0x30 + n) else of_nat (0x41 + n - 10))"

definition percentEscape :: "nat \<Rightarrow> jsstr" where
  "percentEscape octet = [0x25, hexDigit (octet div 16), hexDigit (octet mod 16)]"

definition escapeCodePoint :: "nat \<Rightarrow> jsstr" where
  "escapeCodePoint cp = concat (map percentEscape (utf8Octets cp))"

fun encodeURIComponent :: "jsstr \<Rightarrow> js_error + jsstr" where
  "encodeURIComponent [] = Inr []"
| "encodeURIComponent (c # cs) =
     (if uriUnreserved c then
        (case encodeURIComponent cs of Inl e \<Rightarrow> Inl e | Inr r \<Rightarrow> Inr (c # r))
      else if isTrailSurrogate c then Inl URIError
      else if isLeadSurrogate c then
        (case cs of
           [] \<Rightarrow> Inl URIError
         | d # ds \<Rightarrow>
             if isTrailSurrogate d then
               (case encodeURIComponent ds of
                  Inl e \<Rightarrow> Inl e
                | Inr r \<Rightarrow>
                    Inr (escapeCodePoint
                           ((unat c - 0xD800) * 0x400 + (unat d - 0xDC00) + 0x10000) @ r))
             else Inl URIError)
      else
        (case encodeURIComponent cs of
           Inl e \<Rightarrow> Inl e
         | Inr r \<Rightarrow> Inr (escapeCodePoint (unat c) @ r)))"

section \<open>Query parameters\<close>

text \<open>
  A value of \<open>req.query\<close>: a string, an array (a repeated key) or a nested object. A
  missing key is \<open>None\<close> in the request record below.
\<close>

datatype qvalue = QStr jsstr | QArr "qvalue list" | QObj "(jsstr \<times> qvalue) list"

fun joinComma :: "jsstr list \<Rightarrow> jsstr" where
  "joinComma [] = []"
| "joinComma [x] = x"
| "joinComma (x # y # ys) = x @ [0x2C] @ joinComma (y # ys)"

text \<open>\<open>ToString\<close>: an array joins the strings of its elements with commas, a plain
  object gives \<open>[object Object]\<close>.\<close>

fun toString :: "qvalue \<Rightarrow> jsstr" where
  "toString (QStr s) = s"
| "toString (QArr vs) = joinComma (map toString vs)"
| "toString (QObj kvs) = str ''[object Object]''"

section \<open>Array built-ins\<close>

text \<open>\<open>Array.prototype.findIndex\<close>: the index of the first element that satisfies
  the predicate, \<open>-1\<close> when there is none.\<close>

fun findIndexFrom :: "('a \<Rightarrow> bool) \<Rightarrow> int \<Rightarrow> 'a list \<Rightarrow> int" where
  "findIndexFrom P k [] = -1"
| "findIndexFrom P k (x # xs) = (if P x then k else findIndexFrom P (k + 1) xs)"

definition findIndex :: "('a \<Rightarrow> bool) \<Rightarrow> 'a list \<Rightarrow> int" where
  "findIndex P xs = findIndexFrom P 0 xs"

text \<open>\<open>Array.prototype.filter\<close> with the three-argument callback
  \<open>(element, index, self)\<close>.\<close>

definition filter_indexed :: "('a \<Rightarrow> nat \<Rightarrow> 'a list \<Rightarrow> bool) \<Rightarrow> 'a list \<Rightarrow> 'a list" where
  "filter_indexed f self =
     map fst (filter (\<lambda>(x, i). f x i self) (zip self [0..<length self]))"

text \<open>\<open>ToIntegerOrInfinity\<close> on the numbers of this model: \<open>NaN\<close> becomes 0.\<close>

fun toIntegerOrInfinity :: "jsnum \<Rightarrow> int" where
  "toIntegerOrInfinity NaN = 0"
| "toIntegerOrInfinity (Num n) = n"

text \<open>\<open>Array.prototype.slice(start, end)\<close>: a negative bound counts from the end of
  the array, and both bounds are clamped to the array.\<close>

definition js_slice :: "'a list \<Rightarrow> jsnum \<Rightarrow> jsnum \<Rightarrow> 'a list" where
  "js_slice xs start fin =
     (let len = int (length xs);
          relativeStart = toIntegerOrInfinity start;
          k = (if relativeStart < 0 then max (len + relativeStart) 0 else min relativeStart len);
          relativeEnd = toIntegerOrInfinity fin;
          final = (if relativeEnd < 0 then max (len + relativeEnd) 0 else min relativeEnd len)
      in take (nat (final - k)) (drop (nat k) xs))"

section \<open>Result records and the normalizer (index.js, lines 175-180)\<close>

record ResultRecord =
  title :: jsstr
  link :: jsval
  snippet :: jsval
  source :: jsstr

text \<open>
  \<^verbatim>\<open>results.filter((result, index, self) =>
      index === self.findIndex((r) => r.title === result.title))\<close>
\<close>

definition uniqueResults :: "ResultRecord list \<Rightarrow> ResultRecord list" where
  "uniqueResults results =
     filter_indexed
       (\<lambda>result index self. int index = findIndex (\<lambda>r. title r = title result) self)
       results"

text \<open>\<^verbatim>\<open>uniqueResults.slice(0, pages * 10)\<close>: what \<open>scrapeGoogle\<close> returns from the
  buffer the callbacks have filled.\<close>

definition normalizeResults :: "jsnum \<Rightarrow> ResultRecord list \<Rightarrow> ResultRecord list" where
  "normalizeResults pages results = js_slice (uniqueResults results) (Num 0) (js_mul pages (Num 10))"

section \<open>The collector callbacks (index.js, lines 107-116 and 153-167)\<close>

text \<open>
  The page object the engine hands to \<open>getPageObject\<close>: one key per child operation of
  \<open>searchResult\<close>, each holding the array of the texts that operation collected, or
  missing.
\<close>

record pageObject =
  po_title :: "jsstr list option"
  po_link :: "jsstr list option"
  po_snippet :: "jsstr list option"

text \<open>\<open>xs[0]\<close>: reading index 0 of an empty array gives \<open>undefined\<close>.\<close>

fun index0 :: "jsstr list \<Rightarrow> jsval" where
  "index0 [] = JUndefined"
| "index0 (x # xs) = JStr x"

text \<open>Truthiness: \<open>undefined\<close>, \<open>null\<close> and the empty string are falsy.\<close>

fun truthy :: "jsval \<Rightarrow> bool" where
  "truthy JUndefined = False"
| "truthy JNull = False"
| "truthy (JStr s) = (s \<noteq> [])"

text \<open>
  \<^verbatim>\<open>if (pageObject.title && pageObject.title[0]) {
    results.push({ title: pageObject.title[0],
                   link: pageObject.link ? pageObject.link[0] : null,
                   snippet: pageObject.snippet ? pageObject.snippet[0] : null,
                   source: address }); }\<close>
  An array is truthy even when it is empty. The buffer \<open>results\<close> is passed and returned.
\<close>

definition getPageObject :: "pageObject \<Rightarrow> jsstr \<Rightarrow> ResultRecord list \<Rightarrow> ResultRecord list" where
  "getPageObject pageObject address results =
     (case po_title pageObject of
        None \<Rightarrow> results
      | Some ts \<Rightarrow>
          (case index0 ts of
             JStr t \<Rightarrow>
               if truthy (JStr t)
               then results @
                 [\<lparr>title = t,
                   link = (case po_link pageObject of None \<Rightarrow> JNull | Some ls \<Rightarrow> index0 ls),
                   snippet = (case po_snippet pageObject of None \<Rightarrow> JNull | Some ss \<Rightarrow> index0 ss),
                   source = address\<rparr>]
               else results
           | _ \<Rightarrow> results))"

text \<open>The record \<open>directTitles\<close> pushes for a heading text.\<close>

definition directTitleRecord :: "jsstr \<Rightarrow> ResultRecord" where
  "directTitleRecord t =
     \<lparr>title = t, link = JNull, snippet = JNull, source = str ''search results page''\<rparr>"

text \<open>
  The body of the \<open>forEach\<close> of \<open>getAllItems\<close>:
  \<^verbatim>\<open>if (title && !results.some((r) => r.title === title)) { results.push({...}); }\<close>
\<close>

definition directTitle :: "ResultRecord list \<Rightarrow> jsstr \<Rightarrow> ResultRecord list" where
  "directTitle results t =
     (if truthy (JStr t) \<and> \<not> list_ex (\<lambda>r. title r = t) results
      then results @ [directTitleRecord t]
      else results)"

text \<open>\<open>items.forEach(...)\<close> runs the body on the items in order; \<open>address\<close> is not
  used.\<close>

definition getAllItems :: "jsstr list \<Rightarrow> jsstr \<Rightarrow> ResultRecord list \<Rightarrow> ResultRecord list" where
  "getAllItems items address results = foldl directTitle results items"

section \<open>The scrape configuration and the pagination (index.js, lines 83-102 and 118-125)\<close>

record ScrapeConfig =
  baseSiteUrl :: jsstr
  startUrl :: jsstr
  concurrency :: int
  maxRetries :: int
  delay :: int
  timeout :: int
  headers :: "(jsstr \<times> jsstr) list"
  removeStyleAndScriptTags :: bool

text \<open>The object literal \<open>config\<close>, as a function of the two values it interpolates.\<close>

definition config :: "jsstr \<Rightarrow> jsstr \<Rightarrow> ScrapeConfig" where
  "config encodedQuery lang =
     \<lparr>baseSiteUrl = str ''https://www.google.com'',
      startUrl = str ''https://www.google.com/search?q='' @ encodedQuery @ str ''&hl='' @ lang,
      concurrency = 2,
      maxRetries = 2,
      delay = 5000,
      timeout = 15000,
      headers =
        [(str ''User-Agent'',
          str ''Mozilla/5.0 (Windows NT 10.0; Win64; x64) AppleWebKit/537.36 (KHTML, like Gecko) Chrome/120.0.0.0 Safari/537.36''),
         (str ''Accept-Language'', lang @ str ''-US,'' @ lang @ str '';q=0.9''),
         (str ''Accept'',
          str ''text/html,application/xhtml+xml,application/xml;q=0.9,image/webp,*/*;q=0.8''),
         (str ''Referer'', str ''https://www.google.com/''),
         (str ''Sec-Fetch-Dest'', str ''document''),
         (str ''Sec-Fetch-Mode'', str ''navigate''),
         (str ''Sec-Fetch-Site'', str ''same-origin'')],
      removeStyleAndScriptTags = True\<rparr>"

record Pagination =
  queryString :: jsstr
  pg_begin :: jsnum
  pg_end :: jsnum
  offset :: jsnum

text \<open>
  \<^verbatim>\<open>new Root({ pagination: { queryString: "start", begin: 0,
                            end: (pages - 1) * 10, offset: 10 } })\<close>
  The operations added to the root do not depend on the request; the engine below stands
  for the scraper run on that fixed tree.
\<close>

definition root :: "jsnum \<Rightarrow> Pagination" where
  "root pgs =
     \<lparr>queryString = str ''start'',
      pg_begin = Num 0,
      pg_end = js_mul (js_sub pgs (Num 1)) (Num 10),
      offset = Num 10\<rparr>"

text \<open>
  Modelled from the spec: the offsets the external engine generates from a pagination
  descriptor. The engine is not part of the repository; the spec gives the rule as "start
  offset begins at 0, increments by 10, ends at (pages-1)*10", that is the values
  \<open>begin, begin + offset, ...\<close> up to \<open>end\<close>.
\<close>

function offsetsFrom :: "int \<Rightarrow> int \<Rightarrow> int \<Rightarrow> int list" where
  "offsetsFrom i e d = (if 0 < d \<and> i \<le> e then i # offsetsFrom (i + d) e d else [])"
  by pat_completeness auto
termination
  by (relation "measure (\<lambda>(i, e, d). nat (e - i + 1))") auto

declare offsetsFrom.simps [simp del]

text \<open>
  Modelled from the spec: the offsets generated from the descriptor \<open>root\<close> builds; a
  descriptor with a \<open>NaN\<close> field generates none.
\<close>

definition paginationOffsets :: "Pagination \<Rightarrow> int list" where
  "paginationOffsets pg =
     (case (pg_begin pg, pg_end pg, offset pg) of
        (Num b, Num e, Num d) \<Rightarrow> offsetsFrom b e d
      | _ \<Rightarrow> [])"

section \<open>The scrape (index.js, lines 79-181)\<close>

text \<open>
  The external engine, \<open>scraper.scrape(root)\<close>, is a parameter: given the configuration
  and the root it calls the two callbacks that write to \<open>results\<close>, in some order, and
  then resolves, or rejects with an error message.
\<close>

datatype event =
    PageObjectEvent pageObject jsstr
  | AllItemsEvent "jsstr list" jsstr

record engineRun =
  events :: "event list"
  failure :: "jsstr option"

type_synonym engine = "ScrapeConfig \<Rightarrow> Pagination \<Rightarrow> engineRun"

fun callback :: "ResultRecord list \<Rightarrow> event \<Rightarrow> ResultRecord list" where
  "callback results (PageObjectEvent pageObject address) = getPageObject pageObject address results"
| "callback results (AllItemsEvent items address) = getAllItems items address results"

text \<open>What the handler does besides answering, in order.\<close>

datatype effect =
    SetHeader jsstr jsstr
  | Scrape ScrapeConfig Pagination
  | ConsoleError js_error

text \<open>
  \<open>scrapeGoogle(query, pages = 1, lang = "en")\<close>: a missing argument takes its default.
  The result is the value the promise resolves with, or the error it rejects with, and
  the calls made to the engine.
\<close>

definition scrapeGoogle ::
  "engine \<Rightarrow> jsstr \<Rightarrow> jsnum option \<Rightarrow> qvalue option
     \<Rightarrow> (js_error + ResultRecord list) \<times> effect list" where
  "scrapeGoogle eng query pagesArg langArg =
     (let pgs = (case pagesArg of None \<Rightarrow> Num 1 | Some n \<Rightarrow> n);
          lang = (case langArg of None \<Rightarrow> QStr (str ''en'') | Some l \<Rightarrow> l)
      in case encodeURIComponent query of
           Inl e \<Rightarrow> (Inl e, [])
         | Inr encodedQuery \<Rightarrow>
             (let cfg = config encodedQuery (toString lang);
                  rt = root pgs;
                  run = eng cfg rt;
                  results = foldl callback [] (events run)
              in case failure run of
                   Some message \<Rightarrow> (Inl (ScrapeError message), [Scrape cfg rt])
                 | None \<Rightarrow> (Inr (normalizeResults pgs results), [Scrape cfg rt])))"

section \<open>The search endpoint (index.js, lines 30-67)\<close>

record request =
  req_q :: "qvalue option"
  req_pages :: "qvalue option"
  req_lang :: "qvalue option"

datatype body =
    ErrorBody jsstr jsstr
  | ResultsBody jsstr jsnum nat jsstr "ResultRecord list"
  | FailureBody jsstr js_error jsstr

record response =
  status :: nat
  body :: body

text \<open>The answer to a missing or blank query: \<open>error\<close> and \<open>example\<close>.\<close>

definition badRequest :: response where
  "badRequest =
     \<lparr>status = 400,
      body = ErrorBody (str ''Query parameter (q) is required'')
               (str ''/search?q=nodejs+tutorial&pages=2'')\<rparr>"

text \<open>The answer of the \<open>catch\<close> block: \<open>error\<close>, the error whose message is sent, and
  \<open>suggestion\<close>.\<close>

definition scrapeFailed :: "js_error \<Rightarrow> response" where
  "scrapeFailed e =
     \<lparr>status = 500,
      body = FailureBody (str ''Failed to scrape Google'') e
               (str ''Try again later or reduce the number of pages'')\<rparr>"

text \<open>\<open>parseInt(pages)\<close> after \<open>pages = 1\<close> has replaced a missing parameter:
  \<open>parseInt(1)\<close> is 1.\<close>

definition pagesOf :: "request \<Rightarrow> jsnum" where
  "pagesOf req = (case req_pages req of None \<Rightarrow> Num 1 | Some v \<Rightarrow> parseInt (toString v))"

definition langOf :: "request \<Rightarrow> qvalue" where
  "langOf req = (case req_lang req of None \<Rightarrow> QStr (str ''en'') | Some v \<Rightarrow> v)"

text \<open>
  The handler of \<open>GET /search\<close>. \<open>now\<close> is the time stamp \<open>new Date().toISOString()\<close>
  gives. A query that is not a string has no \<open>trim\<close> method: the call throws a
  \<open>TypeError\<close>, which the \<open>catch\<close> block answers like any other error.
\<close>

definition search :: "engine \<Rightarrow> jsstr \<Rightarrow> request \<Rightarrow> response \<times> effect list" where
  "search eng now req =
     (case req_q req of
        None \<Rightarrow> (badRequest, [])
      | Some (QStr query) \<Rightarrow>
          if query = [] \<or> trim query = [] then (badRequest, [])
          else
            (let hs = [SetHeader (str ''Access-Control-Allow-Origin'') (str ''*''),
                       SetHeader (str ''Content-Type'') (str ''application/json'')]
             in case scrapeGoogle eng query (Some (pagesOf req)) (Some (langOf req)) of
                  (Inr results, effs) \<Rightarrow>
                    (\<lparr>status = 200,
                      body = ResultsBody query (pagesOf req) (length results) now results\<rparr>,
                     hs @ effs)
                | (Inl e, effs) \<Rightarrow> (scrapeFailed e, hs @ effs @ [ConsoleError e]))
      | Some _ \<Rightarrow> (scrapeFailed TypeError, [ConsoleError TypeError]))"

section \<open>Well-formed strings\<close>

text \<open>\<open>String.prototype.isWellFormed\<close>: no surrogate stands without its partner.\<close>

fun isWellFormed :: "jsstr \<Rightarrow> bool" where
  "isWellFormed [] = True"
| "isWellFormed (c # cs) =
     (if isTrailSurrogate c then False
      else if isLeadSurrogate c then
        (case cs of [] \<Rightarrow> False | d # ds \<Rightarrow> isTrailSurrogate d \<and> isWellFormed ds)
      else isWellFormed cs)"

section \<open>Sample engines and requests\<close>

text \<open>An engine run that opens one result page and collects two headings, and one that
  is refused by the site.\<close>

definition sampleEngine :: engine where
  "sampleEngine cfg rt =
     \<lparr>events =
        [PageObjectEvent
           \<lparr>po_title = Some [str ''T''], po_link = Some [str ''https://t.example/''],
            po_snippet = None\<rparr>
           (str ''https://t.example/''),
         AllItemsEvent [str ''T'', str ''U''] (startUrl cfg)],
      failure = None\<rparr>"

definition failingEngine :: engine where
  "failingEngine cfg rt =
     \<lparr>events = [], failure = Some (str ''Request failed with status code 429'')\<rparr>"

definition sampleRequest :: request where
  "sampleRequest = \<lparr>req_q = Some (QStr (str ''nodejs'')), req_pages = None, req_lang = None\<rparr>"

definition badPagesRequest :: request where
  "badPagesRequest =
     \<lparr>req_q = Some (QStr (str ''nodejs'')), req_pages = Some (QStr (str ''abc'')),
      req_lang = None\<rparr>"

definition negativePagesRequest :: request where
  "negativePagesRequest =
     \<lparr>req_q = Some (QStr (str ''nodejs'')), req_pages = Some (QStr (str ''-1'')),
      req_lang = None\<rparr>"

definition sampleNow :: jsstr where
  "sampleNow = str ''2026-11-02T09:00:00.000Z''"

section \<open>A sample buffer\<close>

text \<open>Eleven records with eleven titles, as \<open>directTitles\<close> pushes them for the
  headings a to k.\<close>

definition elevenRecords :: "ResultRecord list" where
  "elevenRecords =
     [directTitleRecord (str ''a''), directTitleRecord (str ''b''), directTitleRecord (str ''c''),
      directTitleRecord (str ''d''), directTitleRecord (str ''e''), directTitleRecord (str ''f''),
      directTitleRecord (str ''g''), directTitleRecord (str ''h''), directTitleRecord (str ''i''),
      directTitleRecord (str ''j''), directTitleRecord (str ''k'')]"

section \<open>Properties of the built-ins\<close>

lemma findIndexFrom_takeWhile:
  "findIndexFrom P k xs =
     (if list_ex P xs then k + int (length (takeWhile (\<lambda>x. \<not> P x) xs)) else -1)"
  by (induction xs arbitrary: k) auto

lemma findIndex_eq_iff:
  assumes "i < length xs" and "P (xs ! i)"
  shows "findIndex P xs = int i \<longleftrightarrow> (\<forall>j<i. \<not> P (xs ! j))"
proof -
  let ?n = "length (takeWhile (\<lambda>x. \<not> P x) xs)"
  have ex: "list_ex P xs"
    using assms by (auto simp: list_ex_iff)
  have "?n = i \<longleftrightarrow> (\<forall>j<i. \<not> P (xs ! j))"
  proof
    assume h: "?n = i"
    show "\<forall>j<i. \<not> P (xs ! j)"
    proof (intro allI impI)
      fix j assume "j < i"
      then have j: "j < ?n" using h by simp
      then have "takeWhile (\<lambda>x. \<not> P x) xs ! j \<in> set (takeWhile (\<lambda>x. \<not> P x) xs)"
        by (rule nth_mem)
      then have "\<not> P (takeWhile (\<lambda>x. \<not> P x) xs ! j)"
        by (rule set_takeWhileD [THEN conjunct2])
      then show "\<not> P (xs ! j)"
        using j by (simp add: takeWhile_nth)
    qed
  next
    assume "\<forall>j<i. \<not> P (xs ! j)"
    then have "takeWhile (\<lambda>x. \<not> P x) xs = take i xs"
      using assms by (intro takeWhile_eq_take_P_nth) auto
    then show "?n = i"
      using assms by simp
  qed
  then show ?thesis
    using ex by (simp add: findIndex_def findIndexFrom_takeWhile)
qed

lemma zip_upt_nth:
  "zip xs [0..<length xs] = map (\<lambda>i. (xs ! i, i)) [0..<length xs]"
  by (rule nth_equalityI) auto

lemma filter_indexed_nth:
  "filter_indexed f xs = map (\<lambda>i. xs ! i) (filter (\<lambda>i. f (xs ! i) i xs) [0..<length xs])"
  by (simp add: filter_indexed_def zip_upt_nth filter_map comp_def)

lemma subseq_filter_indexed: "subseq (filter_indexed f xs) xs"
proof -
  have "subseq (map fst (filter (\<lambda>(x, i). f x i xs) (zip xs [0..<length xs])))
          (map fst (zip xs [0..<length xs]))"
    by (intro subseq_map subseq_filter_left)
  then show ?thesis
    by (simp add: filter_indexed_def)
qed

lemma js_slice_from_0:
  "js_slice xs (Num 0) fin =
     take (nat (if toIntegerOrInfinity fin < 0
                then max (int (length xs) + toIntegerOrInfinity fin) 0
                else min (toIntegerOrInfinity fin) (int (length xs)))) xs"
  by (simp add: js_slice_def Let_def)

lemma prefix_slice_from_0: "prefix (js_slice xs (Num 0) fin) xs"
  unfolding js_slice_from_0 by (rule take_is_prefix)

lemma uriUnreserved_not_surrogate:
  assumes "uriUnreserved c"
  shows "\<not> isTrailSurrogate c" and "\<not> isLeadSurrogate c"
  using assms by (auto simp: uriUnreserved_def isTrailSurrogate_def isLeadSurrogate_def Let_def)

lemma encodeURIComponent_isWellFormed:
  "(\<exists>e. encodeURIComponent s = Inr e) \<longleftrightarrow> isWellFormed s"
proof (induction s rule: encodeURIComponent.induct)
  case 1
  show ?case by simp
next
  case (2 c cs)
  show ?case
  proof (cases "uriUnreserved c")
    case True
    then show ?thesis
      using "2.IH"(1) uriUnreserved_not_surrogate [of c]
      by (auto split: sum.splits)
  next
    case unres: False
    show ?thesis
    proof (cases "isTrailSurrogate c")
      case True
      then show ?thesis using unres by simp
    next
      case trail: False
      show ?thesis
      proof (cases "isLeadSurrogate c")
        case True
        show ?thesis
        proof (cases cs)
          case Nil
          then show ?thesis using unres trail True by simp
        next
          case (Cons d ds)
          then show ?thesis
            using unres trail True "2.IH"(2) [OF unres trail True Cons]
            by (auto split: sum.splits)
        qed
      next
        case False
        then show ?thesis
          using unres trail "2.IH"(3) [OF unres trail False]
          by (auto split: sum.splits)
      qed
    qed
  qed
qed

lemma encodeURIComponent_error:
  assumes "encodeURIComponent s = Inl e"
  shows "e = URIError"
  using assms
  by (induction s arbitrary: e rule: encodeURIComponent.induct)
     (auto split: if_splits sum.splits list.splits)

section \<open>The sample engines and requests, evaluated\<close>

lemma encodeURIComponent_nodejs: "encodeURIComponent (str ''nodejs'') = Inr (str ''nodejs'')"
  by (simp add: str_def uriUnreserved_def)

lemma isWellFormed_nodejs: "isWellFormed (str ''nodejs'')"
  by (simp add: str_def isTrailSurrogate_def isLeadSurrogate_def)

lemma trim_nodejs: "trim (str ''nodejs'') \<noteq> []"
  by (simp add: trim_def str_def isWhiteSpace_def)

lemma sampleRequest_fields:
  "req_q sampleRequest = Some (QStr (str ''nodejs''))"
  "pagesOf sampleRequest = Num 1"
  "langOf sampleRequest = QStr (str ''en'')"
  by (simp_all add: sampleRequest_def pagesOf_def langOf_def)

lemma parseInt_abc: "parseInt (str ''abc'') = NaN"
  by (simp add: parseInt_def str_def isWhiteSpace_def isRadixDigit_def digitValue_def Let_def)

lemma badPagesRequest_fields:
  "req_q badPagesRequest = Some (QStr (str ''nodejs''))"
  "req_pages badPagesRequest = Some (QStr (str ''abc''))"
  "pagesOf badPagesRequest = NaN"
  "langOf badPagesRequest = QStr (str ''en'')"
  by (simp_all add: badPagesRequest_def pagesOf_def langOf_def parseInt_abc)

lemma parseInt_minus_1: "parseInt (str ''-1'') = Num (- 1)"
  by (simp add: parseInt_def str_def isWhiteSpace_def isRadixDigit_def digitValue_def digitOf_def
      Let_def)

lemma negativePagesRequest_fields:
  "req_q negativePagesRequest = Some (QStr (str ''nodejs''))"
  "pagesOf negativePagesRequest = Num (- 1)"
  "langOf negativePagesRequest = QStr (str ''en'')"
  by (simp_all add: negativePagesRequest_def pagesOf_def langOf_def parseInt_minus_1)

lemma sampleEngine_run:
  "failure (sampleEngine cfg rt) = None"
  "foldl callback [] (events (sampleEngine cfg rt)) =
     [\<lparr>title = str ''T'', link = JStr (str ''https://t.example/''), snippet = JNull,
        source = str ''https://t.example/''\<rparr>,
      directTitleRecord (str ''U'')]"
proof -
  have tu: "str ''T'' \<noteq> []" "str ''U'' \<noteq> []" "str ''T'' \<noteq> str ''U''"
    by (simp_all add: str_def)
  show "failure (sampleEngine cfg rt) = None"
    by (simp add: sampleEngine_def)
  show "foldl callback [] (events (sampleEngine cfg rt)) =
     [\<lparr>title = str ''T'', link = JStr (str ''https://t.example/''), snippet = JNull,
        source = str ''https://t.example/''\<rparr>,
      directTitleRecord (str ''U'')]"
    using tu
    by (simp add: sampleEngine_def getPageObject_def getAllItems_def directTitle_def
        directTitleRecord_def)
qed

lemma failingEngine_run:
  "failure (failingEngine cfg rt) = Some (str ''Request failed with status code 429'')"
  by (simp add: failingEngine_def)

section \<open>Properties of the normalizer\<close>

lemma uniqueResults_nth:
  "uniqueResults buf =
     map (\<lambda>i. buf ! i)
       (filter (\<lambda>i. \<forall>j<i. title (buf ! j) \<noteq> title (buf ! i)) [0..<length buf])"
proof -
  have "filter (\<lambda>i. int i = findIndex (\<lambda>r. title r = title (buf ! i)) buf) [0..<length buf]
      = filter (\<lambda>i. \<forall>j<i. title (buf ! j) \<noteq> title (buf ! i)) [0..<length buf]"
    by (rule filter_cong [OF refl]) (simp add: eq_commute [of "int _"] findIndex_eq_iff)
  then show ?thesis
    by (simp add: uniqueResults_def filter_indexed_nth)
qed

lemma uniqueResults_list_all:
  "uniqueResults buf =
     map (\<lambda>i. buf ! i)
       (filter (\<lambda>i. list_all (\<lambda>j. title (buf ! j) \<noteq> title (buf ! i)) [0..<i])
          [0..<length buf])"
  by (simp add: uniqueResults_nth list_all_iff Ball_def)

lemma subseq_uniqueResults: "subseq (uniqueResults buf) buf"
  unfolding uniqueResults_def by (rule subseq_filter_indexed)

lemma length_uniqueResults_le: "length (uniqueResults buf) \<le> length buf"
  using subseq_uniqueResults [of buf] by (rule list_emb_length)

lemma distinct_titles_uniqueResults: "distinct (map title (uniqueResults buf))"
proof -
  let ?Q = "\<lambda>i. \<forall>j<i. title (buf ! j) \<noteq> title (buf ! i)"
  have "inj_on (\<lambda>i. title (buf ! i)) {i. i < length buf \<and> ?Q i}"
  proof (rule inj_onI)
    fix a b
    assume a: "a \<in> {i. i < length buf \<and> ?Q i}" and b: "b \<in> {i. i < length buf \<and> ?Q i}"
      and eq: "title (buf ! a) = title (buf ! b)"
    show "a = b"
    proof (rule ccontr)
      assume "a \<noteq> b"
      then consider "a < b" | "b < a" by linarith
      then show False
        using a b eq by cases auto
    qed
  qed
  moreover have "set (filter ?Q [0..<length buf]) = {i. i < length buf \<and> ?Q i}"
    by auto
  ultimately show ?thesis
    by (simp add: uniqueResults_nth distinct_map comp_def)
qed

lemma titles_uniqueResults: "title ` set (uniqueResults buf) = title ` set buf"
proof
  show "title ` set (uniqueResults buf) \<subseteq> title ` set buf"
    unfolding uniqueResults_nth by auto
next
  show "title ` set buf \<subseteq> title ` set (uniqueResults buf)"
  proof
    fix t assume "t \<in> title ` set buf"
    then obtain i where i: "i < length buf" "title (buf ! i) = t"
      by (auto simp: in_set_conv_nth)
    define m where "m = (LEAST k. k < length buf \<and> title (buf ! k) = t)"
    have m: "m < length buf \<and> title (buf ! m) = t"
      unfolding m_def using i by (intro LeastI [of "\<lambda>k. k < length buf \<and> title (buf ! k) = t" i]) simp
    have least: "\<forall>j<m. title (buf ! j) \<noteq> title (buf ! m)"
    proof (intro allI impI notI)
      fix j assume "j < m" and "title (buf ! j) = title (buf ! m)"
      then have "j < length buf \<and> title (buf ! j) = t" using m by simp
      then have "m \<le> j" unfolding m_def by (rule Least_le)
      with \<open>j < m\<close> show False by simp
    qed
    have "buf ! m \<in> set (uniqueResults buf)"
      unfolding uniqueResults_nth using m least by (auto intro!: image_eqI [of _ _ m])
    then show "t \<in> title ` set (uniqueResults buf)"
      using m by (auto intro: image_eqI [of _ _ "buf ! m"])
  qed
qed

lemma prefix_normalize: "prefix (normalizeResults pages buf) (uniqueResults buf)"
  unfolding normalizeResults_def by (rule prefix_slice_from_0)

lemma subseq_normalize: "subseq (normalizeResults pages buf) buf"
  using prefix_normalize [of pages buf] subseq_uniqueResults [of buf]
  by (meson prefix_imp_subseq subseq_order.order_trans)

lemma distinct_titles_normalize: "distinct (map title (normalizeResults pages buf))"
proof -
  obtain zs where "uniqueResults buf = normalizeResults pages buf @ zs"
    using prefix_normalize [of pages buf] by (auto simp: prefix_def)
  then show ?thesis
    using distinct_titles_uniqueResults [of buf] by simp
qed

lemma uniqueResults_distinct:
  assumes "distinct (map title buf)"
  shows "uniqueResults buf = buf"
proof -
  have "filter (\<lambda>i. \<forall>j<i. title (buf ! j) \<noteq> title (buf ! i)) [0..<length buf]
      = [0..<length buf]"
  proof (rule filter_True, intro ballI allI impI)
    fix i j
    assume "i \<in> set [0..<length buf]" and "j < i"
    then have "j < length (map title buf)" "i < length (map title buf)" "j \<noteq> i"
      by auto
    then have "map title buf ! j \<noteq> map title buf ! i"
      using assms by (simp only: nth_eq_iff_index_eq not_False_eq_True)
    then show "title (buf ! j) \<noteq> title (buf ! i)"
      using \<open>j < length (map title buf)\<close> \<open>i < length (map title buf)\<close> by simp
  qed
  then show ?thesis
    by (simp add: uniqueResults_nth map_nth)
qed

lemma js_slice_take:
  assumes "0 \<le> n"
  shows "js_slice xs (Num 0) (Num n) = take (nat n) xs"
  using assms by (simp add: js_slice_from_0 min_def)

lemma js_slice_NaN: "js_slice xs (Num 0) NaN = []"
  by (simp add: js_slice_from_0)

lemma js_slice_negative:
  assumes "n < 0"
  shows "js_slice xs (Num 0) (Num n) = take (length xs - nat (- n)) xs"
proof -
  have "nat (max (int (length xs) + n) 0) = length xs - nat (- n)"
    using assms by linarith
  then show ?thesis
    using assms by (simp add: js_slice_from_0)
qed

lemma normalizeResults_nonneg:
  assumes "0 \<le> p"
  shows "normalizeResults (Num p) buf = take (nat (p * 10)) (uniqueResults buf)"
  using assms by (simp add: normalizeResults_def js_slice_take)

lemma normalizeResults_NaN: "normalizeResults NaN buf = []"
  by (simp add: normalizeResults_def js_slice_NaN)

lemma normalizeResults_negative:
  assumes "p < 0"
  shows "normalizeResults (Num p) buf =
     take (length (uniqueResults buf) - nat (- (p * 10))) (uniqueResults buf)"
  using assms by (simp add: normalizeResults_def js_slice_negative)

lemma normalizeResults_idem_nonneg:
  assumes "0 \<le> p"
  shows "normalizeResults (Num p) (normalizeResults (Num p) buf) = normalizeResults (Num p) buf"
proof -
  have "uniqueResults (normalizeResults (Num p) buf) = normalizeResults (Num p) buf"
    by (rule uniqueResults_distinct) (rule distinct_titles_normalize)
  then have "normalizeResults (Num p) (normalizeResults (Num p) buf)
      = take (nat (p * 10)) (normalizeResults (Num p) buf)"
    using assms by (simp add: normalizeResults_nonneg)
  also have "\<dots> = normalizeResults (Num p) buf"
    using assms by (simp add: normalizeResults_nonneg)
  finally show ?thesis .
qed

lemma upt_3: "[0..<3] = [0, Suc 0, 2]"
  by (simp add: upt_conv_Cons numeral_3_eq_3)

lemma uniqueResults_ABA:
  assumes "title a = title c" and "title a \<noteq> title b"
  shows "uniqueResults [a, b, c] = [a, b]"
  using assms by (auto simp: uniqueResults_def filter_indexed_def findIndex_def upt_3)

lemma js_slice_whole:
  assumes "int (length xs) \<le> n"
  shows "js_slice xs (Num 0) (Num n) = xs"
  using assms by (simp add: js_slice_from_0)

lemma str_A_neq_B: "str ''A'' \<noteq> str ''B''"
  by (simp add: str_def)

text \<open>
  C1. The deduplication keeps exactly the records that no earlier record of the buffer
  shares its title with, in buffer order: it is a subsequence of the buffer, and the
  normalizer returns a prefix of it, hence again a subsequence of the buffer. For the
  buffer with titles A, B, A and any page count of at least 1, the normalizer returns the
  first two records.
\<close>

theorem normalizer_keeps_first_occurrences:
  "uniqueResults buf =
     map (\<lambda>i. buf ! i)
       (filter (\<lambda>i. list_all (\<lambda>j. title (buf ! j) \<noteq> title (buf ! i)) [0..<i])
          [0..<length buf])
   \<and> subseq (uniqueResults buf) buf
   \<and> title ` set (uniqueResults buf) = title ` set buf
   \<and> prefix (normalizeResults pages buf) (uniqueResults buf)
   \<and> subseq (normalizeResults pages buf) buf
   \<and> (\<forall>p\<ge>1. normalizeResults (Num p)
         [\<lparr>title = str ''A'', link = l1, snippet = s1, source = c1\<rparr>,
          \<lparr>title = str ''B'', link = l2, snippet = s2, source = c2\<rparr>,
          \<lparr>title = str ''A'', link = l3, snippet = s3, source = c3\<rparr>]
       = [\<lparr>title = str ''A'', link = l1, snippet = s1, source = c1\<rparr>,
          \<lparr>title = str ''B'', link = l2, snippet = s2, source = c2\<rparr>])"
proof (intro conjI allI impI)
  fix p :: int
  assume "1 \<le> p"
  then show "normalizeResults (Num p)
         [\<lparr>title = str ''A'', link = l1, snippet = s1, source = c1\<rparr>,
          \<lparr>title = str ''B'', link = l2, snippet = s2, source = c2\<rparr>,
          \<lparr>title = str ''A'', link = l3, snippet = s3, source = c3\<rparr>]
       = [\<lparr>title = str ''A'', link = l1, snippet = s1, source = c1\<rparr>,
          \<lparr>title = str ''B'', link = l2, snippet = s2, source = c2\<rparr>]"
    by (simp add: normalizeResults_def uniqueResults_ABA str_A_neq_B js_slice_whole)
qed (rule uniqueResults_list_all subseq_uniqueResults titles_uniqueResults
      prefix_normalize subseq_normalize)+

theorem normalizer_keeps_first_occurrences_witness:
  "(1::int) \<le> 1
   \<and> uniqueResults
         [\<lparr>title = str ''A'', link = JStr (str ''u''), snippet = JNull, source = str ''p''\<rparr>,
          \<lparr>title = str ''B'', link = JNull, snippet = JNull, source = str ''search results page''\<rparr>,
          \<lparr>title = str ''A'', link = JNull, snippet = JNull, source = str ''search results page''\<rparr>]
       = [\<lparr>title = str ''A'', link = JStr (str ''u''), snippet = JNull, source = str ''p''\<rparr>,
          \<lparr>title = str ''B'', link = JNull, snippet = JNull, source = str ''search results page''\<rparr>]
   \<and> normalizeResults (Num 1)
         [\<lparr>title = str ''A'', link = JStr (str ''u''), snippet = JNull, source = str ''p''\<rparr>,
          \<lparr>title = str ''B'', link = JNull, snippet = JNull, source = str ''search results page''\<rparr>,
          \<lparr>title = str ''A'', link = JNull, snippet = JNull, source = str ''search results page''\<rparr>]
       = [\<lparr>title = str ''A'', link = JStr (str ''u''), snippet = JNull, source = str ''p''\<rparr>,
          \<lparr>title = str ''B'', link = JNull, snippet = JNull, source = str ''search results page''\<rparr>]"
  using normalizer_keeps_first_occurrences
    [where buf = "[\<lparr>title = str ''A'', link = JStr (str ''u''), snippet = JNull, source = str ''p''\<rparr>,
          \<lparr>title = str ''B'', link = JNull, snippet = JNull, source = str ''search results page''\<rparr>,
          \<lparr>title = str ''A'', link = JNull, snippet = JNull, source = str ''search results page''\<rparr>]"
       and pages = "Num 1" and ?l1.0 = "JStr (str ''u'')" and ?s1.0 = JNull and ?c1.0 = "str ''p''"
       and ?l2.0 = JNull and ?s2.0 = JNull and ?c2.0 = "str ''search results page''"
       and ?l3.0 = JNull and ?s3.0 = JNull and ?c3.0 = "str ''search results page''"]
  by (simp add: upt_3 str_A_neq_B)

lemma uniqueResults_elevenRecords: "uniqueResults elevenRecords = elevenRecords"
  by (rule uniqueResults_distinct) (simp add: elevenRecords_def directTitleRecord_def str_def)

lemma normalizeResults_elevenRecords:
  "normalizeResults (Num (- 1)) elevenRecords = [directTitleRecord (str ''a'')]"
  by (simp add: normalizeResults_negative uniqueResults_elevenRecords)
     (simp add: elevenRecords_def)

lemma length_normalizeResults_nonneg:
  assumes "0 \<le> p"
  shows "int (length (normalizeResults (Num p) buf)) \<le> p * 10"
  using assms by (simp add: normalizeResults_nonneg)

text \<open>
  C2, as the spec states it, fails for a negative page count: \<open>slice(0, -10)\<close> drops the
  last ten records instead of keeping at most \<open>pages * 10\<close>; of eleven records with
  eleven titles one is returned, which is more than \<open>-10\<close>.
\<close>

theorem normalizer_length_bound_counterexample:
  "normalizeResults (Num (- 1)) elevenRecords = [directTitleRecord (str ''a'')]
   \<and> \<not> int (length (normalizeResults (Num (- 1)) elevenRecords)) \<le> (- 1) * 10"
  by (simp add: normalizeResults_elevenRecords)

lemma scrapeGoogle_returns_normalized:
  assumes "fst (scrapeGoogle eng query pagesArg langArg) = Inr rs"
  shows "\<exists>buf. rs = normalizeResults (case pagesArg of None \<Rightarrow> Num 1 | Some n \<Rightarrow> n) buf"
  using assms by (auto simp: scrapeGoogle_def Let_def split: sum.splits option.splits)

text \<open>
  C2, amended. Whatever the buffer and the page count, no two records of the normalized
  sequence share a title. For a page count that is an integer \<open>p \<ge> 0\<close> the sequence
  has at most \<open>p * 10\<close> records, and for \<open>NaN\<close> it is empty. 25 records with 25 titles
  and 2 pages give exactly 20 records. The same holds of whatever \<open>scrapeGoogle\<close>
  returns to its caller.
\<close>

theorem normalizer_distinct_and_bounded:
  "distinct (map title (normalizeResults pgs buf))
   \<and> (\<forall>p\<ge>0. int (length (normalizeResults (Num p) buf)) \<le> p * 10)
   \<and> normalizeResults NaN buf = []
   \<and> (distinct (map title buf) \<and> length buf = 25
        \<longrightarrow> length (normalizeResults (Num 2) buf) = 20)
   \<and> (\<forall>rs. fst (scrapeGoogle eng query pagesArg langArg) = Inr rs
         \<longrightarrow> distinct (map title rs)
             \<and> (\<forall>p\<ge>0. pagesArg = Some (Num p) \<longrightarrow> int (length rs) \<le> p * 10))"
proof (intro conjI allI impI)
  show "distinct (map title (normalizeResults pgs buf))"
    by (rule distinct_titles_normalize)
next
  fix p :: int assume "0 \<le> p"
  then show "int (length (normalizeResults (Num p) buf)) \<le> p * 10"
    by (rule length_normalizeResults_nonneg)
next
  show "normalizeResults NaN buf = []"
    by (rule normalizeResults_NaN)
next
  assume "distinct (map title buf) \<and> length buf = 25"
  then show "length (normalizeResults (Num 2) buf) = 20"
    by (simp add: normalizeResults_nonneg uniqueResults_distinct)
next
  fix rs assume "fst (scrapeGoogle eng query pagesArg langArg) = Inr rs"
  then show "distinct (map title rs)"
    using scrapeGoogle_returns_normalized [of eng query pagesArg langArg rs]
    by (auto simp: distinct_titles_normalize)
next
  fix rs p
  assume "fst (scrapeGoogle eng query pagesArg langArg) = Inr rs"
    and "(0::int) \<le> p" and "pagesArg = Some (Num p)"
  then show "int (length rs) \<le> p * 10"
    using scrapeGoogle_returns_normalized [of eng query pagesArg langArg rs]
    by (auto simp: length_normalizeResults_nonneg)
qed

theorem normalizer_distinct_and_bounded_witness:
  "distinct (map title (normalizeResults (Num 2)
      (map (\<lambda>c. directTitleRecord [c]) (str ''abcdefghijklmnopqrstuvwxy''))))
   \<and> (0::int) \<le> 2
   \<and> int (length (normalizeResults (Num 2)
        (map (\<lambda>c. directTitleRecord [c]) (str ''abcdefghijklmnopqrstuvwxy'')))) \<le> 2 * 10
   \<and> distinct (map title (map (\<lambda>c. directTitleRecord [c]) (str ''abcdefghijklmnopqrstuvwxy'')))
   \<and> length (map (\<lambda>c. directTitleRecord [c]) (str ''abcdefghijklmnopqrstuvwxy'')) = 25
   \<and> length (normalizeResults (Num 2)
        (map (\<lambda>c. directTitleRecord [c]) (str ''abcdefghijklmnopqrstuvwxy''))) = 20
   \<and> fst (scrapeGoogle sampleEngine (str ''nodejs'') (Some (Num 2)) None)
       = Inr [\<lparr>title = str ''T'', link = JStr (str ''https://t.example/''), snippet = JNull,
                source = str ''https://t.example/''\<rparr>,
              directTitleRecord (str ''U'')]
   \<and> distinct (map title
        [\<lparr>title = str ''T'', link = JStr (str ''https://t.example/''), snippet = JNull,
           source = str ''https://t.example/''\<rparr>,
         directTitleRecord (str ''U'')])"
proof -
  have d: "distinct (map title (map (\<lambda>c. directTitleRecord [c]) (str ''abcdefghijklmnopqrstuvwxy'')))"
    by (simp add: directTitleRecord_def str_def)
  have l: "length (map (\<lambda>c. directTitleRecord [c]) (str ''abcdefghijklmnopqrstuvwxy'')) = 25"
    by (simp add: str_def)
  have tu: "str ''T'' \<noteq> str ''U''"
    by (simp add: str_def)
  have u: "uniqueResults
       [\<lparr>title = str ''T'', link = JStr (str ''https://t.example/''), snippet = JNull,
          source = str ''https://t.example/''\<rparr>,
        directTitleRecord (str ''U'')]
     = [\<lparr>title = str ''T'', link = JStr (str ''https://t.example/''), snippet = JNull,
          source = str ''https://t.example/''\<rparr>,
        directTitleRecord (str ''U'')]"
    by (rule uniqueResults_distinct) (simp add: directTitleRecord_def tu)
  have s: "fst (scrapeGoogle sampleEngine (str ''nodejs'') (Some (Num 2)) None)
       = Inr [\<lparr>title = str ''T'', link = JStr (str ''https://t.example/''), snippet = JNull,
                source = str ''https://t.example/''\<rparr>,
              directTitleRecord (str ''U'')]"
    by (simp add: scrapeGoogle_def Let_def encodeURIComponent_nodejs sampleEngine_run
        normalizeResults_nonneg u)
  show ?thesis
    using d l s normalizer_distinct_and_bounded
      [where pgs = "Num 2"
         and buf = "map (\<lambda>c. directTitleRecord [c]) (str ''abcdefghijklmnopqrstuvwxy'')"
         and eng = sampleEngine and query = "str ''nodejs''" and pagesArg = "Some (Num 2)"
         and langArg = None]
    by simp
qed

text \<open>
  C5, as the spec states it, fails for a negative page count: each application of
  \<open>slice(0, -10)\<close> drops ten more records. Of the eleven records the first application
  keeps one and the second none.
\<close>

theorem normalizer_idempotence_counterexample:
  "normalizeResults (Num (- 1)) (normalizeResults (Num (- 1)) elevenRecords)
     \<noteq> normalizeResults (Num (- 1)) elevenRecords"
proof -
  have "uniqueResults [directTitleRecord (str ''a'')] = [directTitleRecord (str ''a'')]"
    by (rule uniqueResults_distinct) simp
  then have "normalizeResults (Num (- 1)) [directTitleRecord (str ''a'')] = []"
    by (simp add: normalizeResults_negative)
  then show ?thesis
    by (simp add: normalizeResults_elevenRecords)
qed

text \<open>
  C5, amended. For every buffer, and every page count that is \<open>NaN\<close> or an integer
  \<open>p \<ge> 0\<close>, normalizing the normalized sequence gives it back. For every page count
  whatsoever the deduplication removes nothing from a normalized sequence.
\<close>

theorem normalizer_idempotent:
  "normalizeResults NaN (normalizeResults NaN buf) = normalizeResults NaN buf
   \<and> (\<forall>p\<ge>0. normalizeResults (Num p) (normalizeResults (Num p) buf)
               = normalizeResults (Num p) buf)
   \<and> uniqueResults (normalizeResults pgs buf) = normalizeResults pgs buf"
proof (intro conjI allI impI)
  show "normalizeResults NaN (normalizeResults NaN buf) = normalizeResults NaN buf"
    by (simp add: normalizeResults_NaN)
next
  fix p :: int assume "0 \<le> p"
  then show "normalizeResults (Num p) (normalizeResults (Num p) buf) = normalizeResults (Num p) buf"
    by (rule normalizeResults_idem_nonneg)
next
  show "uniqueResults (normalizeResults pgs buf) = normalizeResults pgs buf"
    by (rule uniqueResults_distinct) (rule distinct_titles_normalize)
qed

theorem normalizer_idempotent_witness:
  "(0::int) \<le> 1
   \<and> normalizeResults (Num 1) (normalizeResults (Num 1) elevenRecords)
       = normalizeResults (Num 1) elevenRecords
   \<and> length (normalizeResults (Num 1) elevenRecords) = 10"
  using normalizer_idempotent [of elevenRecords "Num 1"]
  by (simp add: normalizeResults_nonneg uniqueResults_elevenRecords) (simp add: elevenRecords_def)

section \<open>Properties of the collectors\<close>

lemma getPageObject_no_title:
  assumes "po_title pageObject = None \<or> po_title pageObject = Some []
           \<or> (\<exists>ts. po_title pageObject = Some ([] # ts))"
  shows "getPageObject pageObject address results = results"
  using assms by (auto simp: getPageObject_def)

lemma getPageObject_title:
  assumes "po_title pageObject = Some (t # ts)" and "t \<noteq> []"
  shows "getPageObject pageObject address results =
     results @
       [\<lparr>title = t,
         link = (case po_link pageObject of None \<Rightarrow> JNull | Some ls \<Rightarrow> index0 ls),
         snippet = (case po_snippet pageObject of None \<Rightarrow> JNull | Some ss \<Rightarrow> index0 ss),
         source = address\<rparr>]"
  using assms by (simp add: getPageObject_def)

text \<open>
  C6 at a page object whose \<open>link\<close> and \<open>snippet\<close> arrays are present and empty (a page
  with a heading on which the \<open>link\<close> and \<open>snippet\<close> operations matched nothing): the
  arrays are truthy, so the record pushed holds \<open>undefined\<close>, not \<open>null\<close>, in both
  fields.
\<close>

theorem getPageObject_empty_arrays:
  "getPageObject \<lparr>po_title = Some [str ''T''], po_link = Some [], po_snippet = Some []\<rparr>
     (str ''https://t.example/'') []
   = [\<lparr>title = str ''T'', link = JUndefined, snippet = JUndefined,
        source = str ''https://t.example/''\<rparr>]"
  by (simp add: getPageObject_def str_def)

lemma directTitle_cases:
  "directTitle results t =
     (if t \<noteq> [] \<and> (\<forall>r\<in>set results. title r \<noteq> t)
      then results @ [directTitleRecord t] else results)"
  by (auto simp: directTitle_def list_ex_iff)

lemma getAllItems_take_Suc:
  assumes "i < length items"
  shows "getAllItems (take (Suc i) items) address results =
     directTitle (getAllItems (take i items) address results) (items ! i)"
  using assms by (simp add: getAllItems_def take_Suc_conv_app_nth)

lemma foldl_directTitle_appends:
  "\<exists>ts. foldl directTitle results items = results @ map directTitleRecord ts
        \<and> subseq ts items \<and> distinct ts
        \<and> set ts = {t \<in> set items. t \<noteq> [] \<and> t \<notin> title ` set results}"
proof (induction items arbitrary: results)
  case Nil
  show ?case by (intro exI [of _ "[]"]) simp
next
  case (Cons t items)
  show ?case
  proof (cases "t \<noteq> [] \<and> (\<forall>r\<in>set results. title r \<noteq> t)")
    case True
    obtain ts where ts:
      "foldl directTitle (results @ [directTitleRecord t]) items
         = (results @ [directTitleRecord t]) @ map directTitleRecord ts"
      "subseq ts items" "distinct ts"
      "set ts = {x \<in> set items. x \<noteq> [] \<and> x \<notin> title ` set (results @ [directTitleRecord t])}"
      using Cons.IH [of "results @ [directTitleRecord t]"] by blast
    have tt: "title (directTitleRecord t) = t"
      by (simp add: directTitleRecord_def)
    have "foldl directTitle results (t # items) = results @ map directTitleRecord (t # ts)"
      using True ts(1) by (simp add: directTitle_cases)
    moreover have "subseq (t # ts) (t # items)"
      using ts(2) by simp
    moreover have "distinct (t # ts)"
      using ts(3,4) by (simp add: tt)
    moreover have "set (t # ts) = {x \<in> set (t # items). x \<noteq> [] \<and> x \<notin> title ` set results}"
      using True ts(4) by (auto simp: tt)
    ultimately show ?thesis by blast
  next
    case False
    obtain ts where ts:
      "foldl directTitle results items = results @ map directTitleRecord ts"
      "subseq ts items" "distinct ts"
      "set ts = {x \<in> set items. x \<noteq> [] \<and> x \<notin> title ` set results}"
      using Cons.IH [of results] by blast
    have "directTitle results t = results"
      using False by (auto simp: directTitle_cases)
    then have "foldl directTitle results (t # items) = results @ map directTitleRecord ts"
      using ts(1) by simp
    moreover have "subseq ts (t # items)"
      using ts(2) by (rule list_emb_Cons)
    moreover have "set ts = {x \<in> set (t # items). x \<noteq> [] \<and> x \<notin> title ` set results}"
      using False ts(4) by auto
    ultimately show ?thesis using ts(3) by blast
  qed
qed

text \<open>
  C7. When \<open>directTitles\<close> receives a list of heading texts, each text in turn is
  appended as a record with \<open>link\<close> and \<open>snippet\<close> \<open>null\<close> and source "search results
  page" if and only if it is non-empty and no record of the buffer, as it stands when the
  text is reached, has that title; otherwise that step leaves the buffer as it is. In
  all, the old buffer is kept in front, and the titles appended are, once each and in
  their order, the non-empty heading texts that no record of the old buffer had.
\<close>

theorem directTitles_appends_new_titles:
  "(\<forall>i<length items.
      getAllItems (take (Suc i) items) address results =
        (if items ! i \<noteq> []
            \<and> (\<forall>r\<in>set (getAllItems (take i items) address results). title r \<noteq> items ! i)
         then getAllItems (take i items) address results @
                [\<lparr>title = items ! i, link = JNull, snippet = JNull,
                  source = str ''search results page''\<rparr>]
         else getAllItems (take i items) address results))
   \<and> (\<exists>ts. getAllItems items address results = results @ map directTitleRecord ts
          \<and> subseq ts items \<and> distinct ts
          \<and> set ts = {t \<in> set items. t \<noteq> [] \<and> t \<notin> title ` set results})"
proof (intro conjI allI impI)
  fix i assume "i < length items"
  then show "getAllItems (take (Suc i) items) address results =
        (if items ! i \<noteq> []
            \<and> (\<forall>r\<in>set (getAllItems (take i items) address results). title r \<noteq> items ! i)
         then getAllItems (take i items) address results @
                [\<lparr>title = items ! i, link = JNull, snippet = JNull,
                  source = str ''search results page''\<rparr>]
         else getAllItems (take i items) address results)"
    by (simp only: getAllItems_take_Suc directTitle_cases directTitleRecord_def)
next
  show "\<exists>ts. getAllItems items address results = results @ map directTitleRecord ts
          \<and> subseq ts items \<and> distinct ts
          \<and> set ts = {t \<in> set items. t \<noteq> [] \<and> t \<notin> title ` set results}"
    unfolding getAllItems_def by (rule foldl_directTitle_appends)
qed

theorem directTitles_appends_new_titles_witness:
  "0 < length [str ''A'', [], str ''B'', str ''A'']
   \<and> getAllItems (take (Suc 0) [str ''A'', [], str ''B'', str ''A''])
         (str ''https://www.google.com/search?q=x&hl=en'')
         [\<lparr>title = str ''B'', link = JNull, snippet = JNull, source = str ''https://b.example/''\<rparr>]
       = [\<lparr>title = str ''B'', link = JNull, snippet = JNull, source = str ''https://b.example/''\<rparr>,
          \<lparr>title = str ''A'', link = JNull, snippet = JNull, source = str ''search results page''\<rparr>]
   \<and> getAllItems [str ''A'', [], str ''B'', str ''A'']
         (str ''https://www.google.com/search?q=x&hl=en'')
         [\<lparr>title = str ''B'', link = JNull, snippet = JNull, source = str ''https://b.example/''\<rparr>]
       = [\<lparr>title = str ''B'', link = JNull, snippet = JNull, source = str ''https://b.example/''\<rparr>,
          \<lparr>title = str ''A'', link = JNull, snippet = JNull, source = str ''search results page''\<rparr>]"
proof -
  have ab: "str ''A'' \<noteq> []" "str ''B'' \<noteq> str ''A''" "str ''B'' \<noteq> []"
    by (simp_all add: str_def)
  have "getAllItems [str ''A'', [], str ''B'', str ''A'']
         (str ''https://www.google.com/search?q=x&hl=en'')
         [\<lparr>title = str ''B'', link = JNull, snippet = JNull, source = str ''https://b.example/''\<rparr>]
       = [\<lparr>title = str ''B'', link = JNull, snippet = JNull, source = str ''https://b.example/''\<rparr>,
          \<lparr>title = str ''A'', link = JNull, snippet = JNull, source = str ''search results page''\<rparr>]"
    using ab by (simp add: getAllItems_def directTitle_def directTitleRecord_def)
  moreover have "getAllItems (take (Suc 0) [str ''A'', [], str ''B'', str ''A''])
         (str ''https://www.google.com/search?q=x&hl=en'')
         [\<lparr>title = str ''B'', link = JNull, snippet = JNull, source = str ''https://b.example/''\<rparr>]
       = [\<lparr>title = str ''B'', link = JNull, snippet = JNull, source = str ''https://b.example/''\<rparr>,
          \<lparr>title = str ''A'', link = JNull, snippet = JNull, source = str ''search results page''\<rparr>]"
    using ab directTitles_appends_new_titles
      [where items = "[str ''A'', [], str ''B'', str ''A'']"
         and address = "str ''https://www.google.com/search?q=x&hl=en''"
         and results = "[\<lparr>title = str ''B'', link = JNull, snippet = JNull,
                           source = str ''https://b.example/''\<rparr>]",
       THEN conjunct1, rule_format, of 0]
    by (simp add: getAllItems_def)
  ultimately show ?thesis by simp
qed

section \<open>Properties of the configuration and the pagination\<close>

lemma header_names_distinct:
  "str ''Accept-Language'' \<noteq> str ''User-Agent''"
  by (simp add: str_def)

text \<open>
  C8. Whatever the encoded query and the language, the configuration has concurrency 2,
  2 retries, a delay of 5000 ms, a timeout of 15000 ms, and an \<open>Accept-Language\<close> header
  built from the language. The configuration is a function of the query and the language
  alone: for every well-formed query \<open>scrapeGoogle\<close> calls the engine exactly once, with
  the configuration of the encoded query and of the language (\<open>en\<close> when missing),
  whatever the page count and the engine.
\<close>

theorem config_limits_and_language:
  "concurrency (config encodedQuery l) = 2
   \<and> maxRetries (config encodedQuery l) = 2
   \<and> delay (config encodedQuery l) = 5000
   \<and> timeout (config encodedQuery l) = 15000
   \<and> map_of (headers (config encodedQuery l)) (str ''Accept-Language'')
       = Some (l @ str ''-US,'' @ l @ str '';q=0.9'')
   \<and> (isWellFormed query \<longrightarrow>
         (\<exists>e rt. encodeURIComponent query = Inr e
            \<and> snd (scrapeGoogle eng query pagesArg langArg)
                = [Scrape (config e (toString (case langArg of None \<Rightarrow> QStr (str ''en'')
                                               | Some v \<Rightarrow> v))) rt]))"
proof (intro conjI impI)
  show "map_of (headers (config encodedQuery l)) (str ''Accept-Language'')
       = Some (l @ str ''-US,'' @ l @ str '';q=0.9'')"
    by (simp add: config_def header_names_distinct)
next
  assume "isWellFormed query"
  then obtain e where e: "encodeURIComponent query = Inr e"
    using encodeURIComponent_isWellFormed [of query] by blast
  then have "\<exists>rt. snd (scrapeGoogle eng query pagesArg langArg)
            = [Scrape (config e (toString (case langArg of None \<Rightarrow> QStr (str ''en'')
                                           | Some v \<Rightarrow> v))) rt]"
    by (simp add: scrapeGoogle_def Let_def split: option.splits)
  with e show "\<exists>e rt. encodeURIComponent query = Inr e
            \<and> snd (scrapeGoogle eng query pagesArg langArg)
                = [Scrape (config e (toString (case langArg of None \<Rightarrow> QStr (str ''en'')
                                               | Some v \<Rightarrow> v))) rt]"
    by blast
qed (simp_all add: config_def)

theorem config_limits_and_language_witness:
  "isWellFormed (str ''nodejs'')
   \<and> snd (scrapeGoogle sampleEngine (str ''nodejs'') (Some (Num 3)) None)
       = [Scrape (config (str ''nodejs'') (str ''en'')) (root (Num 3))]
   \<and> concurrency (config (str ''nodejs'') (str ''en'')) = 2
   \<and> map_of (headers (config (str ''nodejs'') (str ''en''))) (str ''Accept-Language'')
       = Some (str ''en-US,en;q=0.9'')"
  using isWellFormed_nodejs encodeURIComponent_nodejs
    config_limits_and_language
      [where encodedQuery = "str ''nodejs''" and l = "str ''en''" and query = "str ''nodejs''"
         and eng = sampleEngine and pagesArg = "Some (Num 3)" and langArg = None]
  by (simp add: scrapeGoogle_def Let_def sampleEngine_def) (simp add: str_def)

lemma offsetsFrom_tens:
  assumes "k \<le> n"
  shows "offsetsFrom (int k * 10) ((int n - 1) * 10) 10 = map (\<lambda>j. int j * 10) [k..<n]"
  using assms
proof (induction "n - k" arbitrary: k)
  case 0
  then have "k = n" by simp
  then show ?case
    by (subst offsetsFrom.simps) simp
next
  case (Suc m)
  then have lt: "k < n" and le: "Suc k \<le> n" and m: "m = n - Suc k"
    by simp_all
  have "offsetsFrom (int k * 10) ((int n - 1) * 10) 10
      = int k * 10 # offsetsFrom (int (Suc k) * 10) ((int n - 1) * 10) 10"
    using lt by (subst offsetsFrom.simps) (simp add: algebra_simps)
  also have "\<dots> = int k * 10 # map (\<lambda>j. int j * 10) [Suc k..<n]"
    using Suc.hyps(1) [OF m le] by simp
  also have "\<dots> = map (\<lambda>j. int j * 10) [k..<n]"
    using lt by (simp add: upt_conv_Cons)
  finally show ?case .
qed

lemma paginationOffsets_root:
  assumes "1 \<le> p"
  shows "paginationOffsets (root (Num p)) = map (\<lambda>j. int j * 10) [0..<nat p]"
proof -
  have "offsetsFrom (int 0 * 10) ((int (nat p) - 1) * 10) 10
      = map (\<lambda>j. int j * 10) [0..<nat p]"
    by (rule offsetsFrom_tens) simp
  then show ?thesis
    using assms by (simp add: paginationOffsets_def root_def)
qed

text \<open>
  C4. For a page count \<open>p \<ge> 1\<close> the descriptor is \<open>start\<close>, begin 0, end
  \<open>(p - 1) * 10\<close>, offset 10, and the offsets it generates are \<open>0, 10, ...\<close>: there are
  \<open>p\<close> of them, the first is 0, each is 10 more than the one before, and the last is
  \<open>(p - 1) * 10\<close>. For 3 pages they are 0, 10, 20.
\<close>

theorem pagination_offsets:
  assumes "1 \<le> p"
  shows "root (Num p) =
           \<lparr>queryString = str ''start'', pg_begin = Num 0, pg_end = Num ((p - 1) * 10),
            offset = Num 10\<rparr>
         \<and> paginationOffsets (root (Num p)) = map (\<lambda>j. int j * 10) [0..<nat p]
         \<and> hd (paginationOffsets (root (Num p))) = 0
         \<and> last (paginationOffsets (root (Num p))) = (p - 1) * 10
         \<and> paginationOffsets (root (Num 3)) = [0, 10, 20]"
proof -
  have pos: "[0..<nat p] \<noteq> []"
    using assms by simp
  have "hd (map (\<lambda>j. int j * 10) [0..<nat p]) = 0"
    using pos by (simp add: hd_map upt_conv_Cons)
  moreover have "last (map (\<lambda>j. int j * 10) [0..<nat p]) = (p - 1) * 10"
  proof -
    have "last [0..<nat p] = nat p - 1"
      using assms by (intro last_upt) simp
    then show ?thesis
      using pos assms by (simp add: last_map)
  qed
  moreover have "paginationOffsets (root (Num 3)) = [0, 10, 20]"
    by (simp add: paginationOffsets_root upt_3)
  ultimately show ?thesis
    using assms by (simp add: paginationOffsets_root) (simp add: root_def)
qed

theorem pagination_offsets_witness:
  "(1::int) \<le> 3
   \<and> root (Num 3) =
       \<lparr>queryString = str ''start'', pg_begin = Num 0, pg_end = Num 20, offset = Num 10\<rparr>
   \<and> paginationOffsets (root (Num 3)) = [0, 10, 20]"
proof -
  have h: "(1::int) \<le> 3"
    by simp
  have a: "root (Num 3) =
       \<lparr>queryString = str ''start'', pg_begin = Num 0, pg_end = Num ((3 - 1) * 10),
        offset = Num 10\<rparr>"
    and b: "paginationOffsets (root (Num 3)) = [0, 10, 20]"
    using pagination_offsets [OF h] by blast+
  have "root (Num 3) =
       \<lparr>queryString = str ''start'', pg_begin = Num 0, pg_end = Num 20, offset = Num 10\<rparr>"
    unfolding a by simp
  then show ?thesis
    using h b by blast
qed

section \<open>Properties of the scrape and of the search endpoint\<close>

lemma scrapeGoogle_resolves:
  assumes "encodeURIComponent query = Inr e"
    and "failure (eng (config e (toString l)) (root pgs)) = None"
  shows "scrapeGoogle eng query (Some pgs) (Some l) =
     (Inr (normalizeResults pgs (foldl callback [] (events (eng (config e (toString l)) (root pgs))))),
      [Scrape (config e (toString l)) (root pgs)])"
  using assms by (simp add: scrapeGoogle_def Let_def)

lemma scrapeGoogle_rejects:
  assumes "encodeURIComponent query = Inr e"
    and "failure (eng (config e (toString l)) (root pgs)) = Some m"
  shows "scrapeGoogle eng query (Some pgs) (Some l) =
     (Inl (ScrapeError m), [Scrape (config e (toString l)) (root pgs)])"
  using assms by (simp add: scrapeGoogle_def Let_def)

lemma scrapeGoogle_throws:
  assumes "encodeURIComponent query = Inl e"
  shows "scrapeGoogle eng query pagesArg langArg = (Inl e, [])"
  using assms by (simp add: scrapeGoogle_def Let_def)

lemma search_valid_query:
  assumes "req_q req = Some (QStr s)" and "trim s \<noteq> []"
  shows "search eng now req =
     (case scrapeGoogle eng s (Some (pagesOf req)) (Some (langOf req)) of
        (Inr results, effs) \<Rightarrow>
          (\<lparr>status = 200, body = ResultsBody s (pagesOf req) (length results) now results\<rparr>,
           [SetHeader (str ''Access-Control-Allow-Origin'') (str ''*''),
            SetHeader (str ''Content-Type'') (str ''application/json'')] @ effs)
      | (Inl e, effs) \<Rightarrow>
          (scrapeFailed e,
           [SetHeader (str ''Access-Control-Allow-Origin'') (str ''*''),
            SetHeader (str ''Content-Type'') (str ''application/json'')] @ effs @ [ConsoleError e]))"
proof -
  have "s \<noteq> []"
    using assms(2) by (auto simp: trim_def)
  then show ?thesis
    using assms by (simp add: search_def Let_def)
qed

lemma search_status_valid_query:
  assumes "req_q req = Some (QStr s)" and "trim s \<noteq> []"
  shows "status (fst (search eng now req)) = 200 \<or> status (fst (search eng now req)) = 500"
  unfolding search_valid_query [OF assms]
  by (auto simp: scrapeFailed_def split: prod.splits sum.splits)

text \<open>
  C3. When \<open>q\<close> is missing, or is a string whose trimmed value is empty, the handler
  answers 400 and does nothing else: it sets no header, writes no log and makes no call to
  the engine, and its answer does not depend on the engine.
\<close>

theorem search_blank_query:
  assumes "req_q req = None \<or> (\<exists>s. req_q req = Some (QStr s) \<and> trim s = [])"
  shows "search eng now req = (badRequest, [])
         \<and> status (fst (search eng now req)) = 400
         \<and> (\<forall>cfg rt. Scrape cfg rt \<notin> set (snd (search eng now req)))"
proof -
  have "search eng now req = (badRequest, [])"
    using assms by (auto simp: search_def)
  then show ?thesis
    by (simp add: badRequest_def)
qed

lemma trim_spaces: "trim (str ''   '') = []"
  by (simp add: trim_def str_def isWhiteSpace_def)

theorem search_blank_query_witness:
  "search sampleEngine sampleNow \<lparr>req_q = None, req_pages = None, req_lang = None\<rparr>
     = (badRequest, [])
   \<and> trim (str ''   '') = []
   \<and> search sampleEngine sampleNow
       \<lparr>req_q = Some (QStr (str ''   '')), req_pages = None, req_lang = None\<rparr>
     = (badRequest, [])"
  using trim_spaces
    search_blank_query
      [of "\<lparr>req_q = None, req_pages = None, req_lang = None\<rparr>" sampleEngine sampleNow]
    search_blank_query
      [of "\<lparr>req_q = Some (QStr (str ''   '')), req_pages = None, req_lang = None\<rparr>"
          sampleEngine sampleNow]
  by simp

text \<open>
  C9, as the spec states it, fails when the engine fails: for the query \<open>nodejs\<close> and an
  engine whose request is refused, the handler answers 500, not 200. The bound on the
  length fails for a negative page count: with \<open>pages=-1\<close> and a scrape that completes,
  the handler answers 200 with no result, and 0 is more than \<open>-10\<close>.
\<close>

theorem search_status_counterexample:
  "fst (search failingEngine sampleNow sampleRequest)
     = scrapeFailed (ScrapeError (str ''Request failed with status code 429''))
   \<and> status (fst (search failingEngine sampleNow sampleRequest)) = 500
   \<and> status (fst (search failingEngine sampleNow sampleRequest)) \<noteq> 200
   \<and> fst (search sampleEngine sampleNow negativePagesRequest)
       = \<lparr>status = 200, body = ResultsBody (str ''nodejs'') (Num (- 1)) 0 sampleNow []\<rparr>
   \<and> \<not> (0::int) \<le> (- 1) * 10"
proof -
  have "scrapeGoogle failingEngine (str ''nodejs'') (Some (Num 1)) (Some (QStr (str ''en'')))
      = (Inl (ScrapeError (str ''Request failed with status code 429'')),
         [Scrape (config (str ''nodejs'') (toString (QStr (str ''en'')))) (root (Num 1))])"
    by (rule scrapeGoogle_rejects
        [where eng = failingEngine, OF encodeURIComponent_nodejs failingEngine_run])
  then have a: "fst (search failingEngine sampleNow sampleRequest)
     = scrapeFailed (ScrapeError (str ''Request failed with status code 429''))"
    by (simp add: search_valid_query [OF sampleRequest_fields(1) trim_nodejs]
        sampleRequest_fields)
  have "scrapeGoogle sampleEngine (str ''nodejs'') (Some (Num (- 1))) (Some (QStr (str ''en'')))
      = (Inr (normalizeResults (Num (- 1))
               (foldl callback []
                  (events (sampleEngine (config (str ''nodejs'') (toString (QStr (str ''en''))))
                     (root (Num (- 1))))))),
         [Scrape (config (str ''nodejs'') (toString (QStr (str ''en'')))) (root (Num (- 1)))])"
    by (rule scrapeGoogle_resolves
        [where eng = sampleEngine, OF encodeURIComponent_nodejs sampleEngine_run(1)])
  moreover have "normalizeResults (Num (- 1))
      [\<lparr>title = str ''T'', link = JStr (str ''https://t.example/''), snippet = JNull,
         source = str ''https://t.example/''\<rparr>,
       directTitleRecord (str ''U'')] = []"
    using length_uniqueResults_le
      [of "[\<lparr>title = str ''T'', link = JStr (str ''https://t.example/''), snippet = JNull,
              source = str ''https://t.example/''\<rparr>,
            directTitleRecord (str ''U'')]"]
    by (simp add: normalizeResults_negative)
  ultimately have b: "fst (search sampleEngine sampleNow negativePagesRequest)
       = \<lparr>status = 200, body = ResultsBody (str ''nodejs'') (Num (- 1)) 0 sampleNow []\<rparr>"
    by (simp add: search_valid_query [OF negativePagesRequest_fields(1) trim_nodejs]
        negativePagesRequest_fields sampleEngine_run(2))
  show ?thesis
    using a b by (simp add: scrapeFailed_def)
qed

text \<open>
  C9, amended. For every query string whose trimmed value is not empty, if the scrape
  completes, that is the query can be encoded and the engine does not fail, the handler
  answers 200 with the normalized results of the run, and when the parsed page count is
  an integer \<open>p \<ge> 0\<close> there are at most \<open>p * 10\<close> of them.
\<close>

theorem search_completed_scrape:
  assumes "req_q req = Some (QStr s)" and "trim s \<noteq> []"
    and "encodeURIComponent s = Inr e"
    and "failure (eng (config e (toString (langOf req))) (root (pagesOf req))) = None"
  shows "\<exists>rs. fst (search eng now req) =
                \<lparr>status = 200, body = ResultsBody s (pagesOf req) (length rs) now rs\<rparr>
              \<and> rs = normalizeResults (pagesOf req)
                    (foldl callback []
                       (events (eng (config e (toString (langOf req))) (root (pagesOf req)))))
              \<and> (\<forall>p\<ge>0. pagesOf req = Num p \<longrightarrow> int (length rs) \<le> p * 10)"
proof -
  let ?rs = "normalizeResults (pagesOf req)
               (foldl callback []
                  (events (eng (config e (toString (langOf req))) (root (pagesOf req)))))"
  have "fst (search eng now req) =
          \<lparr>status = 200, body = ResultsBody s (pagesOf req) (length ?rs) now ?rs\<rparr>"
    by (simp add: search_valid_query [OF assms(1,2)]
        scrapeGoogle_resolves [where eng = eng, OF assms(3,4)])
  moreover have "\<forall>p\<ge>0. pagesOf req = Num p \<longrightarrow> int (length ?rs) \<le> p * 10"
    by (auto simp: length_normalizeResults_nonneg)
  ultimately show ?thesis
    by blast
qed

theorem search_completed_scrape_witness:
  "fst (search sampleEngine sampleNow sampleRequest) =
     \<lparr>status = 200,
      body = ResultsBody (str ''nodejs'') (Num 1) 2 sampleNow
               [\<lparr>title = str ''T'', link = JStr (str ''https://t.example/''), snippet = JNull,
                  source = str ''https://t.example/''\<rparr>,
                directTitleRecord (str ''U'')]\<rparr>
   \<and> (0::int) \<le> 1 \<and> (2::int) \<le> 1 * 10"
proof -
  have tu: "str ''T'' \<noteq> str ''U''"
    by (simp add: str_def)
  have u: "uniqueResults
       [\<lparr>title = str ''T'', link = JStr (str ''https://t.example/''), snippet = JNull,
          source = str ''https://t.example/''\<rparr>,
        directTitleRecord (str ''U'')]
     = [\<lparr>title = str ''T'', link = JStr (str ''https://t.example/''), snippet = JNull,
          source = str ''https://t.example/''\<rparr>,
        directTitleRecord (str ''U'')]"
    by (rule uniqueResults_distinct) (simp add: directTitleRecord_def tu)
  have f: "failure (sampleEngine (config (str ''nodejs'') (toString (langOf sampleRequest)))
             (root (pagesOf sampleRequest))) = None"
    by (rule sampleEngine_run)
  show ?thesis
    using search_completed_scrape
      [where eng = sampleEngine and req = sampleRequest and now = sampleNow,
       OF sampleRequest_fields(1) trim_nodejs encodeURIComponent_nodejs f]
    by (auto simp: sampleRequest_fields sampleEngine_run normalizeResults_nonneg u)
qed

text \<open>
  C10. A \<open>pages\<close> parameter that \<open>parseInt\<close> cannot parse is not refused: for a query
  whose trimmed value is not empty the handler does not answer 400; the page count is
  \<open>NaN\<close>, \<open>slice(0, pages * 10)\<close> of any array is then empty, and when the scrape
  completes the handler answers 200 with an empty \<open>results\<close> array.
\<close>

theorem search_unparsable_pages:
  assumes "req_q req = Some (QStr s)" and "trim s \<noteq> []"
    and "req_pages req = Some v" and "parseInt (toString v) = NaN"
  shows "status (fst (search eng now req)) \<noteq> 400
         \<and> pagesOf req = NaN
         \<and> js_slice (xs :: ResultRecord list) (Num 0) (js_mul (pagesOf req) (Num 10)) = []
         \<and> (\<forall>e. encodeURIComponent s = Inr e
                 \<and> failure (eng (config e (toString (langOf req))) (root NaN)) = None
               \<longrightarrow> fst (search eng now req) =
                     \<lparr>status = 200, body = ResultsBody s NaN 0 now []\<rparr>)"
proof (intro conjI allI impI)
  show "status (fst (search eng now req)) \<noteq> 400"
    using search_status_valid_query [OF assms(1,2), of eng now] by auto
next
  show p: "pagesOf req = NaN"
    using assms(3,4) by (simp add: pagesOf_def)
  show "js_slice xs (Num 0) (js_mul (pagesOf req) (Num 10)) = []"
    by (simp add: p js_slice_NaN)
  fix e
  assume h: "encodeURIComponent s = Inr e
      \<and> failure (eng (config e (toString (langOf req))) (root NaN)) = None"
  have "scrapeGoogle eng s (Some NaN) (Some (langOf req)) =
     (Inr (normalizeResults NaN
             (foldl callback [] (events (eng (config e (toString (langOf req))) (root NaN))))),
      [Scrape (config e (toString (langOf req))) (root NaN)])"
    using h by (intro scrapeGoogle_resolves [where eng = eng]) simp_all
  then show "fst (search eng now req) = \<lparr>status = 200, body = ResultsBody s NaN 0 now []\<rparr>"
    by (simp add: search_valid_query [OF assms(1,2)] p normalizeResults_NaN)
qed

theorem search_unparsable_pages_witness:
  "parseInt (toString (QStr (str ''abc''))) = NaN
   \<and> status (fst (search sampleEngine sampleNow badPagesRequest)) \<noteq> 400
   \<and> fst (search sampleEngine sampleNow badPagesRequest) =
       \<lparr>status = 200, body = ResultsBody (str ''nodejs'') NaN 0 sampleNow []\<rparr>"
proof -
  have n: "parseInt (toString (QStr (str ''abc''))) = NaN"
    by (simp add: parseInt_abc)
  show ?thesis
    using n encodeURIComponent_nodejs
      search_unparsable_pages
        [where eng = sampleEngine and now = sampleNow,
         OF badPagesRequest_fields(1) trim_nodejs badPagesRequest_fields(2) n]
    by (simp add: sampleEngine_run)
qed

end
